theory Spec2Isabelle
  imports Main
begin

section \<open>Inventory ledger and reservation engine\<close>

text \<open>
  A shallow embedding of \<^verbatim>\<open>InventoryService\<close> (services/inventory-service,
  \<^verbatim>\<open>src/services/inventoryService.js\<close>). The three DynamoDB tables are lists of items;
  every item carries its own key attribute, as a DynamoDB item does. Stock counts are
  JavaScript numbers holding integers; they are modelled as \<open>int\<close>, which is exact as long
  as the counts stay inside the safe-integer range. \<^verbatim>\<open>Date.now()\<close> and \<^verbatim>\<open>uuidv4()\<close>
  read the environment: each operation receives the time of the call and the identifiers
  it generates as extra arguments, after the arguments of the source; every
  \<^verbatim>\<open>Date.now()\<close> evaluated during one call reads that one time. An optional argument
  of the source is an \<open>option\<close>; \<open>None\<close> is \<^verbatim>\<open>undefined\<close> and selects the default.
  An operation returns its result, or the error it throws, together with the tables it
  leaves behind.
\<close>

subsection \<open>Items and tables\<close>

datatype error = Error string | TypeError

datatype reservation_status = ACTIVE | CONFIRMED | CANCELLED

record inventory_item =
  productId :: string
  sku :: string
  availableStock :: int
  reservedStock :: int
  totalStock :: int
  location :: string
  lowStockThreshold :: int
  reorderPoint :: int
  reorderQuantity :: int
  lastRestocked :: int
  createdAt :: int
  updatedAt :: int

record reservation_item =
  reservationId :: string
  productId_r :: string
  orderId :: string
  quantity :: int
  status :: reservation_status
  createdAt_r :: int
  expiresAt :: int

record movement_item =
  movementId :: string
  productId_m :: string
  type_m :: string
  quantity_m :: int
  reference :: string
  timestamp :: int

record tables =
  inventory :: "inventory_item list"
  reservations :: "reservation_item list"
  stockMovements :: "movement_item list"

text \<open>The objects returned by \<^verbatim>\<open>confirmReservation\<close> and \<^verbatim>\<open>cancelReservation\<close>:
  \<^verbatim>\<open>{ success: true, reservation }\<close> or \<^verbatim>\<open>{ success: true, message: '...' }\<close>.\<close>

record reply =
  success :: bool
  message :: "string option"
  reservation :: "reservation_item option"

type_synonym 'a outcome = "(error + 'a) \<times> tables"

definition empty_tables :: tables where
  "empty_tables = \<lparr>inventory = [], reservations = [], stockMovements = []\<rparr>"

subsection \<open>The document client\<close>

text \<open>\<^verbatim>\<open>docClient.get\<close>: the item stored under the key, \<open>None\<close> for \<^verbatim>\<open>undefined\<close>.\<close>

definition get_item :: "('v \<Rightarrow> 'k) \<Rightarrow> 'k \<Rightarrow> 'v list \<Rightarrow> 'v option" where
  "get_item key k xs = find (\<lambda>x. key x = k) xs"

text \<open>\<^verbatim>\<open>docClient.put\<close> with no condition: replaces the item that has the same key, or adds
  the item.\<close>

fun put_item :: "('v \<Rightarrow> 'k) \<Rightarrow> 'v \<Rightarrow> 'v list \<Rightarrow> 'v list" where
  "put_item key v [] = [v]"
| "put_item key v (x # xs) = (if key x = key v then v # xs else x # put_item key v xs)"

text \<open>\<^verbatim>\<open>docClient.update\<close> with a \<^verbatim>\<open>SET\<close> expression on attributes other than the key:
  the attributes of the stored item are overwritten at the time of the write. Every
  update of the service addresses an item that was read before and no operation deletes
  items, so the key is present; on an absent key the table is left as it is.\<close>

fun update_item :: "('v \<Rightarrow> 'k) \<Rightarrow> 'k \<Rightarrow> ('v \<Rightarrow> 'v) \<Rightarrow> 'v list \<Rightarrow> 'v list" where
  "update_item key k f [] = []"
| "update_item key k f (x # xs) =
     (if key x = k then f x # xs else x # update_item key k f xs)"

subsection \<open>Operations of the service\<close>

definition getInventory :: "tables \<Rightarrow> string \<Rightarrow> inventory_item option" where
  "getInventory s pid = get_item productId pid (inventory s)"

definition logStockMovement ::
  "tables \<Rightarrow> string \<Rightarrow> string \<Rightarrow> int \<Rightarrow> string \<Rightarrow> int \<Rightarrow> string \<Rightarrow> movement_item \<times> tables" where
  "logStockMovement s pid ty qty ref now mid =
     (let movement = \<lparr>movementId = mid, productId_m = pid, type_m = ty, quantity_m = qty,
                       reference = ref, timestamp = now\<rparr>
      in (movement, s\<lparr>stockMovements := put_item movementId movement (stockMovements s)\<rparr>))"

text \<open>The conditional put \<^verbatim>\<open>attribute_not_exists(productId)\<close> fails with
  \<^verbatim>\<open>ConditionalCheckFailedException\<close> when an item with the key exists; the handler
  turns it into the error below. Nothing has been written at that point.\<close>

definition initializeInventory ::
  "tables \<Rightarrow> string \<Rightarrow> string \<Rightarrow> int \<Rightarrow> string option \<Rightarrow> int \<Rightarrow> string
     \<Rightarrow> inventory_item outcome" where
  "initializeInventory s pid sk initialStock loc now mid =
     (let item = \<lparr>productId = pid, sku = sk, availableStock = initialStock, reservedStock = 0,
                   totalStock = initialStock,
                   location = (case loc of None \<Rightarrow> ''default'' | Some l \<Rightarrow> l),
                   lowStockThreshold = 10, reorderPoint = 20, reorderQuantity = 50,
                   lastRestocked = now, createdAt = now, updatedAt = now\<rparr>
      in case get_item productId pid (inventory s) of
           Some old \<Rightarrow> (Inl (Error ''Inventory already exists for this product''), s)
         | None \<Rightarrow>
             (let s1 = s\<lparr>inventory := put_item productId item (inventory s)\<rparr>
              in (Inr item, snd (logStockMovement s1 pid ''INITIAL'' initialStock
                                   ''System initialization'' now mid))))"

definition updateStock ::
  "tables \<Rightarrow> string \<Rightarrow> int \<Rightarrow> string option \<Rightarrow> string option \<Rightarrow> int \<Rightarrow> string
     \<Rightarrow> inventory_item outcome" where
  "updateStock s pid qty ty ref now mid =
     (case getInventory s pid of
        None \<Rightarrow> (Inl (Error ''Inventory not found for this product''), s)
      | Some currentInventory \<Rightarrow>
          (let newAvailableStock = availableStock currentInventory + qty;
               newTotalStock = totalStock currentInventory + qty
           in if newAvailableStock < 0
              then (Inl (Error ''Insufficient stock for this operation''), s)
              else
                (let upd = (\<lambda>i. i\<lparr>availableStock := newAvailableStock,
                                   totalStock := newTotalStock, updatedAt := now\<rparr>);
                     s1 = s\<lparr>inventory := update_item productId pid upd (inventory s)\<rparr>;
                     s2 = snd (logStockMovement s1 pid
                                 (case ty of None \<Rightarrow> ''ADJUSTMENT'' | Some t \<Rightarrow> t) qty
                                 (case ref of None \<Rightarrow> [] | Some r \<Rightarrow> r) now mid)
                 in (Inr (upd currentInventory), s2))))"

text \<open>\<^verbatim>\<open>reserveStock\<close> awaits the store three times. The part up to the computation of
  the new counters (the read and the check) and the part that writes them are kept
  apart, so that the calls of two requests can be put in the order in which the store
  sees them; \<open>reserveStock\<close> is the two parts run one after the other.\<close>

definition reserveStock_read :: "tables \<Rightarrow> string \<Rightarrow> int \<Rightarrow> error + (int \<times> int)" where
  "reserveStock_read s pid qty =
     (case getInventory s pid of
        None \<Rightarrow> Inl (Error ''Insufficient stock available'')
      | Some iv \<Rightarrow>
          if availableStock iv < qty then Inl (Error ''Insufficient stock available'')
          else Inr (availableStock iv - qty, reservedStock iv + qty))"

definition reserveStock_write ::
  "tables \<Rightarrow> string \<Rightarrow> int \<Rightarrow> string \<Rightarrow> int \<Rightarrow> string \<Rightarrow> int \<Rightarrow> int \<times> int
     \<Rightarrow> reservation_item \<times> tables" where
  "reserveStock_write s pid qty oid expirationMinutes rid now new =
     (let s1 = s\<lparr>inventory := update_item productId pid
                    (\<lambda>i. i\<lparr>availableStock := fst new, reservedStock := snd new,
                           updatedAt := now\<rparr>) (inventory s)\<rparr>;
          r = \<lparr>reservationId = rid, productId_r = pid, orderId = oid, quantity = qty,
               status = ACTIVE, createdAt_r = now,
               expiresAt = now + expirationMinutes * 60 * 1000\<rparr>
      in (r, s1\<lparr>reservations := put_item reservationId r (reservations s1)\<rparr>))"

definition reserveStock ::
  "tables \<Rightarrow> string \<Rightarrow> int \<Rightarrow> string \<Rightarrow> int option \<Rightarrow> string \<Rightarrow> int
     \<Rightarrow> reservation_item outcome" where
  "reserveStock s pid qty oid expirationMinutes rid now =
     (case reserveStock_read s pid qty of
        Inl e \<Rightarrow> (Inl e, s)
      | Inr new \<Rightarrow>
          (case reserveStock_write s pid qty oid
                  (case expirationMinutes of None \<Rightarrow> 15 | Some m \<Rightarrow> m) rid now new of
             (r, s') \<Rightarrow> (Inr r, s')))"

text \<open>In \<^verbatim>\<open>confirmReservation\<close> and \<^verbatim>\<open>cancelReservation\<close> the inventory is read
  without a check: when it is \<^verbatim>\<open>undefined\<close>, reading \<^verbatim>\<open>inventory.reservedStock\<close>
  throws a \<^verbatim>\<open>TypeError\<close> before anything is written.\<close>

definition confirmReservation :: "tables \<Rightarrow> string \<Rightarrow> int \<Rightarrow> string \<Rightarrow> reply outcome" where
  "confirmReservation s rid now mid =
     (case get_item reservationId rid (reservations s) of
        None \<Rightarrow> (Inl (Error ''Reservation not found''), s)
      | Some r \<Rightarrow>
          if status r \<noteq> ACTIVE then (Inl (Error ''Reservation is not active''), s)
          else
            (case getInventory s (productId_r r) of
               None \<Rightarrow> (Inl TypeError, s)
             | Some iv \<Rightarrow>
                 (let newReservedStock = reservedStock iv - quantity r;
                      newTotalStock = totalStock iv - quantity r;
                      s1 = s\<lparr>inventory := update_item productId (productId_r r)
                              (\<lambda>i. i\<lparr>reservedStock := newReservedStock,
                                     totalStock := newTotalStock, updatedAt := now\<rparr>)
                              (inventory s)\<rparr>;
                      s2 = s1\<lparr>reservations := update_item reservationId rid
                                (\<lambda>x. x\<lparr>status := CONFIRMED\<rparr>) (reservations s1)\<rparr>;
                      s3 = snd (logStockMovement s2 (productId_r r) ''SALE'' (- quantity r)
                                  (''Order: '' @ orderId r) now mid)
                  in (Inr \<lparr>success = True, message = None, reservation = Some r\<rparr>, s3))))"

definition cancelReservation :: "tables \<Rightarrow> string \<Rightarrow> int \<Rightarrow> reply outcome" where
  "cancelReservation s rid now =
     (case get_item reservationId rid (reservations s) of
        None \<Rightarrow> (Inl (Error ''Reservation not found''), s)
      | Some r \<Rightarrow>
          if status r \<noteq> ACTIVE
          then (Inr \<lparr>success = True, message = Some ''Reservation already processed'',
                     reservation = None\<rparr>, s)
          else
            (case getInventory s (productId_r r) of
               None \<Rightarrow> (Inl TypeError, s)
             | Some iv \<Rightarrow>
                 (let newAvailableStock = availableStock iv + quantity r;
                      newReservedStock = reservedStock iv - quantity r;
                      s1 = s\<lparr>inventory := update_item productId (productId_r r)
                              (\<lambda>i. i\<lparr>availableStock := newAvailableStock,
                                     reservedStock := newReservedStock, updatedAt := now\<rparr>)
                              (inventory s)\<rparr>;
                      s2 = s1\<lparr>reservations := update_item reservationId rid
                                (\<lambda>x. x\<lparr>status := CANCELLED\<rparr>) (reservations s1)\<rparr>
                  in (Inr \<lparr>success = True, message = None, reservation = Some r\<rparr>, s2))))"

text \<open>\<^verbatim>\<open>cleanupExpiredReservations\<close>: the scan, then the loop over the scanned items. The
  loop cancels each item by its id; an error thrown by a cancel is caught and logged
  and the loop goes on. The result is \<^verbatim>\<open>result.Items.length\<close>.\<close>

definition cleanup_scan :: "tables \<Rightarrow> int \<Rightarrow> reservation_item list" where
  "cleanup_scan s now = filter (\<lambda>r. status r = ACTIVE \<and> expiresAt r < now) (reservations s)"

fun cleanup_loop :: "tables \<Rightarrow> reservation_item list \<Rightarrow> int \<Rightarrow> tables" where
  "cleanup_loop s [] now = s"
| "cleanup_loop s (r # rs) now =
     cleanup_loop (snd (cancelReservation s (reservationId r) now)) rs now"

definition cleanupExpiredReservations :: "tables \<Rightarrow> int \<Rightarrow> nat \<times> tables" where
  "cleanupExpiredReservations s now =
     (let items = cleanup_scan s now in (length items, cleanup_loop s items now))"

subsection \<open>Sequences of calls\<close>

text \<open>One call of the service with its arguments, the time of the call and the
  identifiers generated in it. A call that throws has written nothing (every
  \<^verbatim>\<open>throw\<close> of the source precedes the first write of its operation), so \<open>exec\<close>
  continues from the tables it returns.\<close>

datatype op =
  Initialize string string int "string option" int string
| Update string int "string option" "string option" int string
| Reserve string int string "int option" string int
| Confirm string int string
| Cancel string int
| Cleanup int

fun exec :: "tables \<Rightarrow> op \<Rightarrow> tables" where
  "exec s (Initialize pid sk n loc now mid) = snd (initializeInventory s pid sk n loc now mid)"
| "exec s (Update pid q ty ref now mid) = snd (updateStock s pid q ty ref now mid)"
| "exec s (Reserve pid q oid mins rid now) = snd (reserveStock s pid q oid mins rid now)"
| "exec s (Confirm rid now mid) = snd (confirmReservation s rid now mid)"
| "exec s (Cancel rid now) = snd (cancelReservation s rid now)"
| "exec s (Cleanup now) = snd (cleanupExpiredReservations s now)"

definition run :: "tables \<Rightarrow> op list \<Rightarrow> tables" where
  "run s ops = foldl exec s ops"

fun valid_op :: "op \<Rightarrow> bool" where
  "valid_op (Initialize pid sk n loc now mid) = (0 \<le> n)"
| "valid_op (Reserve pid q oid mins rid now) = (0 < q)"
| "valid_op _ = True"

definition active_qty :: "reservation_item list \<Rightarrow> string \<Rightarrow> int" where
  "active_qty rs p =
     sum_list (map quantity (filter (\<lambda>r. status r = ACTIVE \<and> productId_r r = p) rs))"

definition ledger_inv :: "tables \<Rightarrow> bool" where
  "ledger_inv s \<longleftrightarrow>
     (\<forall>r \<in> set (reservations s). 0 \<le> quantity r) \<and>
     (\<forall>p. active_qty (reservations s) p \<le>
            (case getInventory s p of None \<Rightarrow> 0 | Some i \<Rightarrow> reservedStock i)) \<and>
     (\<forall>p i. getInventory s p = Some i \<longrightarrow>
        availableStock i + reservedStock i = totalStock i \<and> 0 \<le> availableStock i)"

fun op_mids :: "op \<Rightarrow> string list" where
  "op_mids (Initialize pid sk n loc now mid) = [mid]"
| "op_mids (Update pid q ty ref now mid) = [mid]"
| "op_mids (Confirm rid now mid) = [mid]"
| "op_mids _ = []"

definition movement_sum :: "movement_item list \<Rightarrow> string \<Rightarrow> int" where
  "movement_sum ms p = sum_list (map quantity_m (filter (\<lambda>m. productId_m m = p) ms))"

definition audit_inv :: "tables \<Rightarrow> bool" where
  "audit_inv s \<longleftrightarrow>
     (\<forall>p. movement_sum (stockMovements s) p =
            (case getInventory s p of None \<Rightarrow> 0 | Some i \<Rightarrow> totalStock i))"

text \<open>The \<open>totalStock\<close> of a product, \<open>0\<close> when it has no inventory item.\<close>

definition totalStock_of :: "tables \<Rightarrow> string \<Rightarrow> int" where
  "totalStock_of s p = (case getInventory s p of None \<Rightarrow> 0 | Some i \<Rightarrow> totalStock i)"

text \<open>The calls of the scenarios A to D of the specification.\<close>

definition scenario :: "op list" where
  "scenario =
     [Initialize ''p1'' ''SKU1'' 50 (Some ''WH-A'') 1000 ''m1'',
      Reserve ''p1'' 10 ''orderA'' (Some 15) ''r1'' 2000,
      Confirm ''r1'' 3000 ''m2'',
      Reserve ''p1'' 5 ''orderB'' (Some 15) ''r2'' 4000,
      Cancel ''r2'' 5000]"

text \<open>The tables after the first two, the first four and all five calls of the scenario,
  and the items they hold for product \<^verbatim>\<open>p1\<close>.\<close>

definition after_reserve :: tables where
  "after_reserve = run empty_tables (take 2 scenario)"

definition after_second_reserve :: tables where
  "after_second_reserve = run empty_tables (take 4 scenario)"

definition after_all :: tables where
  "after_all = run empty_tables scenario"

definition r1_active :: reservation_item where
  "r1_active = \<lparr>reservationId = ''r1'', productId_r = ''p1'', orderId = ''orderA'',
     quantity = 10, status = ACTIVE, createdAt_r = 2000, expiresAt = 902000\<rparr>"

definition r2_active :: reservation_item where
  "r2_active = \<lparr>reservationId = ''r2'', productId_r = ''p1'', orderId = ''orderB'',
     quantity = 5, status = ACTIVE, createdAt_r = 4000, expiresAt = 904000\<rparr>"

definition p1_item :: "int \<Rightarrow> int \<Rightarrow> int \<Rightarrow> int \<Rightarrow> inventory_item" where
  "p1_item a r t u = \<lparr>productId = ''p1'', sku = ''SKU1'', availableStock = a, reservedStock = r,
     totalStock = t, location = ''WH-A'', lowStockThreshold = 10, reorderPoint = 20,
     reorderQuantity = 50, lastRestocked = 1000, createdAt = 1000, updatedAt = u\<rparr>"

text \<open>A product with ten units in stock.\<close>

definition stocked10 :: tables where
  "stocked10 = run empty_tables [Initialize ''p1'' ''SKU1'' 10 None 1000 ''m1'']"

text \<open>Tables in which the expired reservation \<^verbatim>\<open>r0\<close> names a product that has no
  inventory item, next to the expired reservation \<^verbatim>\<open>r2\<close> of product \<^verbatim>\<open>p1\<close>.\<close>

definition r0_orphan :: reservation_item where
  "r0_orphan = \<lparr>reservationId = ''r0'', productId_r = ''p0'', orderId = ''order0'',
     quantity = 3, status = ACTIVE, createdAt_r = 100, expiresAt = 200\<rparr>"

definition orphaned :: tables where
  "orphaned = \<lparr>inventory = [p1_item 35 5 40 4000], reservations = [r0_orphan, r2_active],
     stockMovements = []\<rparr>"

section \<open>Properties\<close>

subsection \<open>The store\<close>

lemmas eval_simps = run_def scenario_def empty_tables_def initializeInventory_def
  updateStock_def reserveStock_def reserveStock_read_def reserveStock_write_def
  confirmReservation_def cancelReservation_def cleanupExpiredReservations_def
  cleanup_scan_def logStockMovement_def getInventory_def get_item_def Let_def

lemma get_item_mem: "get_item key k xs = Some x \<Longrightarrow> x \<in> set xs"
  by (induction xs) (auto simp: get_item_def split: if_splits)

lemma get_item_put_item:
  "get_item key k (put_item key v xs) = (if k = key v then Some v else get_item key k xs)"
  by (induction xs) (auto simp: get_item_def)

lemma get_item_update_item:
  "(\<And>x. key (f x) = key x) \<Longrightarrow>
   get_item key k' (update_item key k f xs) =
     (if k' = k then map_option f (get_item key k xs) else get_item key k' xs)"
  by (induction xs) (auto simp: get_item_def)

lemma active_qty_nonneg: "\<forall>r \<in> set rs. 0 \<le> quantity r \<Longrightarrow> 0 \<le> active_qty rs p"
  by (induction rs) (auto simp: active_qty_def)

lemma active_qty_put_item:
  "\<forall>x \<in> set rs. 0 \<le> quantity x \<Longrightarrow>
   active_qty (put_item reservationId r rs) p \<le>
     active_qty rs p + (if status r = ACTIVE \<and> productId_r r = p then quantity r else 0)"
  by (induction rs) (auto simp: active_qty_def)

lemma active_qty_update_status:
  "get_item reservationId rid rs = Some r \<Longrightarrow> status r = ACTIVE \<Longrightarrow> st \<noteq> ACTIVE \<Longrightarrow>
   active_qty (update_item reservationId rid (\<lambda>x. x\<lparr>status := st\<rparr>) rs) p =
     active_qty rs p - (if productId_r r = p then quantity r else 0)"
  by (induction rs) (auto simp: active_qty_def get_item_def split: if_splits)

lemma quantity_update_status:
  "\<forall>x \<in> set rs. 0 \<le> quantity x \<Longrightarrow>
   \<forall>x \<in> set (update_item reservationId rid (\<lambda>x. x\<lparr>status := st\<rparr>) rs). 0 \<le> quantity x"
  by (induction rs) auto

lemma quantity_put_item:
  "\<forall>x \<in> set rs. 0 \<le> quantity x \<Longrightarrow> 0 \<le> quantity r \<Longrightarrow>
   \<forall>x \<in> set (put_item reservationId r rs). 0 \<le> quantity x"
  by (induction rs) auto

lemma ledger_inv_initialize:
  assumes "ledger_inv s" "0 \<le> n"
  shows "ledger_inv (snd (initializeInventory s pid sk n loc now mid))"
proof (cases "get_item productId pid (inventory s)")
  case (Some old)
  then show ?thesis using assms by (simp add: initializeInventory_def)
next
  case None
  have a: "active_qty (reservations s) pid \<le> 0"
    using assms(1) None by (auto simp: ledger_inv_def getInventory_def dest: spec [of _ pid])
  show ?thesis
    using assms None a
    by (auto simp: ledger_inv_def initializeInventory_def logStockMovement_def
        getInventory_def get_item_put_item Let_def)
qed

lemma ledger_inv_updateStock:
  assumes "ledger_inv s"
  shows "ledger_inv (snd (updateStock s pid q ty ref now mid))"
proof (cases "getInventory s pid")
  case None
  then show ?thesis using assms by (simp add: updateStock_def)
next
  case (Some cur)
  show ?thesis
  proof (cases "availableStock cur + q < 0")
    case True
    then show ?thesis using assms Some by (simp add: updateStock_def)
  next
    case False
    then show ?thesis
      using assms Some
      by (auto simp: ledger_inv_def updateStock_def logStockMovement_def Let_def
          getInventory_def get_item_update_item split: option.splits)
  qed
qed

lemma ledger_inv_reserveStock:
  assumes "ledger_inv s" "0 \<le> q"
  shows "ledger_inv (snd (reserveStock s pid q oid mins rid now))"
proof (cases "getInventory s pid")
  case None
  then show ?thesis using assms by (simp add: reserveStock_def reserveStock_read_def)
next
  case (Some cur)
  show ?thesis
  proof (cases "availableStock cur < q")
    case True
    then show ?thesis using assms Some by (simp add: reserveStock_def reserveStock_read_def)
  next
    case False
    define r where "r = \<lparr>reservationId = rid, productId_r = pid, orderId = oid, quantity = q,
               status = ACTIVE, createdAt_r = now,
               expiresAt = now + (case mins of None \<Rightarrow> 15 | Some m \<Rightarrow> m) * 60 * 1000\<rparr>"
    define f where "f = (\<lambda>i::inventory_item. i\<lparr>availableStock := availableStock cur - q,
                           reservedStock := reservedStock cur + q, updatedAt := now\<rparr>)"
    have s': "snd (reserveStock s pid q oid mins rid now) =
        s\<lparr>inventory := update_item productId pid f (inventory s),
          reservations := put_item reservationId r (reservations s)\<rparr>"
      using Some False
      by (simp add: reserveStock_def reserveStock_read_def reserveStock_write_def r_def f_def Let_def)
    have fk: "\<And>x. productId (f x) = productId x" by (simp add: f_def)
    have q0: "\<forall>x \<in> set (reservations s). 0 \<le> quantity x"
      using assms(1) by (simp add: ledger_inv_def)
    have rf: "status r = ACTIVE" "productId_r r = pid" "quantity r = q"
      by (simp_all add: r_def)
    have aq: "active_qty (put_item reservationId r (reservations s)) p \<le>
        active_qty (reservations s) p + (if pid = p then q else 0)" for p
      using active_qty_put_item [OF q0, of r p] rf by (simp split: if_splits)
    have old: "\<And>p. active_qty (reservations s) p \<le>
            (case getInventory s p of None \<Rightarrow> 0 | Some i \<Rightarrow> reservedStock i)"
      using assms(1) by (simp add: ledger_inv_def)
    have c1: "\<forall>x \<in> set (put_item reservationId r (reservations s)). 0 \<le> quantity x"
      using quantity_put_item [OF q0, of r] assms(2) rf by simp
    have gi: "get_item productId p (update_item productId pid f (inventory s)) =
        (if p = pid then Some (f cur) else get_item productId p (inventory s))" for p
      using Some by (simp add: get_item_update_item [of productId f, OF fk] getInventory_def)
    have c2: "active_qty (put_item reservationId r (reservations s)) p \<le>
        (case get_item productId p (update_item productId pid f (inventory s)) of
           None \<Rightarrow> 0 | Some i \<Rightarrow> reservedStock i)" for p
      unfolding gi using aq [of p] old [of p] Some
      by (auto simp: getInventory_def f_def split: option.splits)
    have c3: "get_item productId p (update_item productId pid f (inventory s)) = Some i \<Longrightarrow>
        availableStock i + reservedStock i = totalStock i \<and> 0 \<le> availableStock i" for p i
      unfolding gi using assms(1) Some False
      by (auto simp: getInventory_def f_def ledger_inv_def split: if_splits)
    show ?thesis
      unfolding s' ledger_inv_def using c1 c2 c3 by (simp add: getInventory_def)
  qed
qed

lemma ledger_inv_resolve:
  assumes inv: "ledger_inv s"
    and r: "get_item reservationId rid (reservations s) = Some r" "status r = ACTIVE"
    and cur: "getInventory s (productId_r r) = Some cur"
    and st: "st \<noteq> ACTIVE"
    and fk: "\<And>x. productId (f x) = productId x"
    and f: "reservedStock (f cur) = reservedStock cur - quantity r"
      "availableStock (f cur) + reservedStock (f cur) = totalStock (f cur)"
      "0 \<le> availableStock (f cur)"
    and s': "inventory s' = update_item productId (productId_r r) f (inventory s)"
      "reservations s' = update_item reservationId rid (\<lambda>x. x\<lparr>status := st\<rparr>) (reservations s)"
  shows "ledger_inv s'"
proof -
  have q0: "\<forall>x \<in> set (reservations s). 0 \<le> quantity x"
    using inv by (simp add: ledger_inv_def)
  have old: "active_qty (reservations s) p \<le>
            (case getInventory s p of None \<Rightarrow> 0 | Some i \<Rightarrow> reservedStock i)" for p
    using inv by (simp add: ledger_inv_def)
  have gi: "get_item productId p (inventory s') =
        (if p = productId_r r then Some (f cur) else get_item productId p (inventory s))" for p
    using cur by (simp add: s' get_item_update_item [of productId f, OF fk] getInventory_def)
  have aq: "active_qty (reservations s') p =
      active_qty (reservations s) p - (if productId_r r = p then quantity r else 0)" for p
    unfolding s' using active_qty_update_status [OF r st] by simp
  have c1: "\<forall>x \<in> set (reservations s'). 0 \<le> quantity x"
    unfolding s' using quantity_update_status [OF q0] by simp
  have c2: "active_qty (reservations s') p \<le>
        (case get_item productId p (inventory s') of None \<Rightarrow> 0 | Some i \<Rightarrow> reservedStock i)" for p
    unfolding gi aq using old [of p] cur f(1)
    by (auto simp: getInventory_def split: option.splits)
  have c3: "get_item productId p (inventory s') = Some i \<Longrightarrow>
        availableStock i + reservedStock i = totalStock i \<and> 0 \<le> availableStock i" for p i
    unfolding gi using inv f(2,3)
    by (auto simp: getInventory_def ledger_inv_def split: if_splits)
  show ?thesis
    unfolding ledger_inv_def using c1 c2 c3 by (simp add: getInventory_def)
qed

lemma ledger_inv_confirmReservation:
  assumes "ledger_inv s"
  shows "ledger_inv (snd (confirmReservation s rid now mid))"
proof (cases "get_item reservationId rid (reservations s)")
  case None
  then show ?thesis using assms by (simp add: confirmReservation_def)
next
  case (Some r)
  show ?thesis
  proof (cases "status r = ACTIVE")
    case False
    then show ?thesis using assms Some by (simp add: confirmReservation_def)
  next
    case True
    show ?thesis
    proof (cases "getInventory s (productId_r r)")
      case None
      then show ?thesis using assms Some True by (simp add: confirmReservation_def)
    next
      case cur: (Some cur)
      have tot: "availableStock cur + reservedStock cur = totalStock cur" "0 \<le> availableStock cur"
        using assms cur by (auto simp: ledger_inv_def)
      show ?thesis
        by (rule ledger_inv_resolve [OF assms Some True cur, of CONFIRMED
              "\<lambda>i. i\<lparr>reservedStock := reservedStock cur - quantity r,
                     totalStock := totalStock cur - quantity r, updatedAt := now\<rparr>"])
          (use Some True cur tot in
            \<open>simp_all add: confirmReservation_def logStockMovement_def Let_def\<close>)
    qed
  qed
qed

lemma ledger_inv_cancelReservation:
  assumes "ledger_inv s"
  shows "ledger_inv (snd (cancelReservation s rid now))"
proof (cases "get_item reservationId rid (reservations s)")
  case None
  then show ?thesis using assms by (simp add: cancelReservation_def)
next
  case (Some r)
  show ?thesis
  proof (cases "status r = ACTIVE")
    case False
    then show ?thesis using assms Some by (simp add: cancelReservation_def)
  next
    case True
    show ?thesis
    proof (cases "getInventory s (productId_r r)")
      case None
      then show ?thesis using assms Some True by (simp add: cancelReservation_def)
    next
      case cur: (Some cur)
      have tot: "availableStock cur + reservedStock cur = totalStock cur" "0 \<le> availableStock cur"
        using assms cur by (auto simp: ledger_inv_def)
      have q: "0 \<le> quantity r"
        using assms get_item_mem [OF Some] by (simp add: ledger_inv_def)
      show ?thesis
        by (rule ledger_inv_resolve [OF assms Some True cur, of CANCELLED
              "\<lambda>i. i\<lparr>availableStock := availableStock cur + quantity r,
                     reservedStock := reservedStock cur - quantity r, updatedAt := now\<rparr>"])
          (use Some True cur tot q in
            \<open>simp_all add: cancelReservation_def Let_def\<close>)
    qed
  qed
qed

lemma ledger_inv_cleanup_loop:
  "ledger_inv s \<Longrightarrow> ledger_inv (cleanup_loop s items now)"
  by (induction items arbitrary: s) (simp_all add: ledger_inv_cancelReservation)

lemma ledger_inv_exec: "ledger_inv s \<Longrightarrow> valid_op x \<Longrightarrow> ledger_inv (exec s x)"
  by (cases x)
    (simp_all add: ledger_inv_initialize ledger_inv_updateStock ledger_inv_reserveStock
      ledger_inv_confirmReservation ledger_inv_cancelReservation ledger_inv_cleanup_loop
      cleanupExpiredReservations_def Let_def)

lemma ledger_inv_empty: "ledger_inv empty_tables"
  by (simp add: ledger_inv_def empty_tables_def getInventory_def get_item_def active_qty_def)

lemma ledger_inv_run:
  "ledger_inv s \<Longrightarrow> \<forall>x \<in> set ops. valid_op x \<Longrightarrow> ledger_inv (run s ops)"
  unfolding run_def by (induction ops arbitrary: s) (simp_all add: ledger_inv_exec)

lemma map_key_update_item:
  "(\<And>x. key (f x) = key x) \<Longrightarrow> map key (update_item key k f xs) = map key xs"
  by (induction xs) auto

lemma map_key_put_item_new:
  "get_item key (key v) xs = None \<Longrightarrow> map key (put_item key v xs) = map key xs @ [key v]"
  by (induction xs) (auto simp: get_item_def split: if_splits)

lemma get_item_None_iff: "get_item key k xs = None \<longleftrightarrow> k \<notin> key ` set xs"
  by (induction xs) (auto simp: get_item_def)

lemma get_item_distinct:
  "distinct (map key xs) \<Longrightarrow> x \<in> set xs \<Longrightarrow> get_item key (key x) xs = Some x"
  by (induction xs) (auto simp: get_item_def)

lemma keys_initialize:
  "distinct (map productId (inventory s)) \<Longrightarrow>
   distinct (map productId (inventory (snd (initializeInventory s pid sk n loc now mid))))"
  by (auto simp: initializeInventory_def logStockMovement_def Let_def map_key_put_item_new
      get_item_None_iff split: option.splits)

lemma keys_updateStock:
  "map productId (inventory (snd (updateStock s pid q ty ref now mid))) =
   map productId (inventory s)"
  by (simp add: updateStock_def logStockMovement_def Let_def map_key_update_item
      split: option.splits)

lemma keys_reserveStock:
  "map productId (inventory (snd (reserveStock s pid q oid mins rid now))) =
   map productId (inventory s)"
  by (simp add: reserveStock_def reserveStock_read_def reserveStock_write_def Let_def
      map_key_update_item split: option.splits)

lemma keys_confirmReservation:
  "map productId (inventory (snd (confirmReservation s rid now mid))) =
   map productId (inventory s)"
  by (simp add: confirmReservation_def logStockMovement_def Let_def map_key_update_item
      split: option.splits)

lemma keys_cancelReservation:
  "map productId (inventory (snd (cancelReservation s rid now))) =
   map productId (inventory s)"
  by (simp add: cancelReservation_def Let_def map_key_update_item split: option.splits)

lemma keys_cleanup_loop:
  "map productId (inventory (cleanup_loop s items now)) = map productId (inventory s)"
  by (induction items arbitrary: s) (simp_all add: keys_cancelReservation)

lemma keys_exec:
  "distinct (map productId (inventory s)) \<Longrightarrow> distinct (map productId (inventory (exec s x)))"
  by (cases x)
    (simp_all add: keys_initialize keys_updateStock keys_reserveStock keys_confirmReservation
      keys_cancelReservation keys_cleanup_loop cleanupExpiredReservations_def Let_def)

lemma keys_run:
  "distinct (map productId (inventory s)) \<Longrightarrow>
   distinct (map productId (inventory (run s ops)))"
  unfolding run_def by (induction ops arbitrary: s) (simp_all add: keys_exec)

lemma put_item_fresh: "key v \<notin> key ` set xs \<Longrightarrow> put_item key v xs = xs @ [v]"
  by (induction xs) auto

lemma movement_sum_append:
  "movement_sum (ms @ [m]) p = movement_sum ms p + (if productId_m m = p then quantity_m m else 0)"
  by (simp add: movement_sum_def)

lemma movement_sum_log:
  "mid \<notin> movementId ` set (stockMovements s) \<Longrightarrow>
   movement_sum (stockMovements (snd (logStockMovement s pid ty q ref now mid))) p =
     movement_sum (stockMovements s) p + (if pid = p then q else 0)"
  by (simp add: logStockMovement_def Let_def put_item_fresh movement_sum_append)

lemma log_other:
  "inventory (snd (logStockMovement s pid ty q ref now mid)) = inventory s"
  "reservations (snd (logStockMovement s pid ty q ref now mid)) = reservations s"
  by (simp_all add: logStockMovement_def Let_def)

lemma audit_initialize:
  assumes "audit_inv s" "mid \<notin> movementId ` set (stockMovements s)"
  shows "audit_inv (snd (initializeInventory s pid sk n loc now mid))"
proof (cases "get_item productId pid (inventory s)")
  case (Some old)
  then show ?thesis using assms by (simp add: initializeInventory_def)
next
  case None
  show ?thesis
    unfolding audit_inv_def
  proof
    fix p
    show "movement_sum (stockMovements (snd (initializeInventory s pid sk n loc now mid))) p =
       (case getInventory (snd (initializeInventory s pid sk n loc now mid)) p of
          None \<Rightarrow> 0 | Some i \<Rightarrow> totalStock i)"
      using assms None spec [OF assms(1) [unfolded audit_inv_def], of p]
      by (auto simp: initializeInventory_def Let_def movement_sum_log getInventory_def
          log_other get_item_put_item)
  qed
qed

lemma audit_updateStock:
  assumes "audit_inv s" "mid \<notin> movementId ` set (stockMovements s)"
  shows "audit_inv (snd (updateStock s pid q ty ref now mid))"
proof (cases "getInventory s pid")
  case None
  then show ?thesis using assms by (simp add: updateStock_def)
next
  case (Some cur)
  show ?thesis
  proof (cases "availableStock cur + q < 0")
    case True
    then show ?thesis using assms Some by (simp add: updateStock_def)
  next
    case False
    show ?thesis
      unfolding audit_inv_def
    proof
      fix p
      show "movement_sum (stockMovements (snd (updateStock s pid q ty ref now mid))) p =
         (case getInventory (snd (updateStock s pid q ty ref now mid)) p of
            None \<Rightarrow> 0 | Some i \<Rightarrow> totalStock i)"
        using assms(2) Some False spec [OF assms(1) [unfolded audit_inv_def], of p]
        by (auto simp: updateStock_def Let_def movement_sum_log getInventory_def
            log_other get_item_update_item)
    qed
  qed
qed

lemma audit_reserveStock:
  assumes "audit_inv s"
  shows "audit_inv (snd (reserveStock s pid q oid mins rid now))"
proof (cases "reserveStock_read s pid q")
  case (Inl e)
  then show ?thesis using assms by (simp add: reserveStock_def)
next
  case (Inr new)
  then obtain cur where cur: "getInventory s pid = Some cur"
    by (auto simp: reserveStock_read_def split: option.splits)
  show ?thesis
    unfolding audit_inv_def
  proof
    fix p
    show "movement_sum (stockMovements (snd (reserveStock s pid q oid mins rid now))) p =
       (case getInventory (snd (reserveStock s pid q oid mins rid now)) p of
          None \<Rightarrow> 0 | Some i \<Rightarrow> totalStock i)"
      using Inr cur spec [OF assms(1) [unfolded audit_inv_def], of p]
      by (auto simp: reserveStock_def reserveStock_write_def Let_def getInventory_def
          get_item_update_item)
  qed
qed

lemma audit_confirmReservation:
  assumes "audit_inv s" "mid \<notin> movementId ` set (stockMovements s)"
  shows "audit_inv (snd (confirmReservation s rid now mid))"
proof (cases "get_item reservationId rid (reservations s)")
  case None
  then show ?thesis using assms by (simp add: confirmReservation_def)
next
  case (Some r)
  show ?thesis
  proof (cases "status r = ACTIVE")
    case False
    then show ?thesis using assms Some by (simp add: confirmReservation_def)
  next
    case True
    show ?thesis
    proof (cases "getInventory s (productId_r r)")
      case None
      then show ?thesis using assms Some True by (simp add: confirmReservation_def)
    next
      case cur: (Some cur)
      show ?thesis
        unfolding audit_inv_def
      proof
        fix p
        show "movement_sum (stockMovements (snd (confirmReservation s rid now mid))) p =
           (case getInventory (snd (confirmReservation s rid now mid)) p of
              None \<Rightarrow> 0 | Some i \<Rightarrow> totalStock i)"
          using assms(2) Some True cur spec [OF assms(1) [unfolded audit_inv_def], of p]
          by (auto simp: confirmReservation_def Let_def movement_sum_log getInventory_def
              log_other get_item_update_item)
      qed
    qed
  qed
qed

lemma audit_cancelReservation:
  assumes "audit_inv s"
  shows "audit_inv (snd (cancelReservation s rid now))"
proof (cases "get_item reservationId rid (reservations s)")
  case None
  then show ?thesis using assms by (simp add: cancelReservation_def)
next
  case (Some r)
  show ?thesis
  proof (cases "status r = ACTIVE")
    case False
    then show ?thesis using assms Some by (simp add: cancelReservation_def)
  next
    case True
    show ?thesis
    proof (cases "getInventory s (productId_r r)")
      case None
      then show ?thesis using assms Some True by (simp add: cancelReservation_def)
    next
      case cur: (Some cur)
      show ?thesis
        unfolding audit_inv_def
      proof
        fix p
        show "movement_sum (stockMovements (snd (cancelReservation s rid now))) p =
           (case getInventory (snd (cancelReservation s rid now)) p of
              None \<Rightarrow> 0 | Some i \<Rightarrow> totalStock i)"
          using Some True cur spec [OF assms(1) [unfolded audit_inv_def], of p]
          by (auto simp: cancelReservation_def Let_def getInventory_def get_item_update_item)
      qed
    qed
  qed
qed


lemma audit_cleanup_loop: "audit_inv s \<Longrightarrow> audit_inv (cleanup_loop s items now)"
  by (induction items arbitrary: s) (simp_all add: audit_cancelReservation)

lemma audit_exec:
  "audit_inv s \<Longrightarrow> set (op_mids x) \<inter> movementId ` set (stockMovements s) = {} \<Longrightarrow>
   audit_inv (exec s x)"
  by (cases x)
    (simp_all add: audit_initialize audit_updateStock audit_reserveStock
      audit_confirmReservation audit_cancelReservation audit_cleanup_loop
      cleanupExpiredReservations_def Let_def)

lemma keys_put_item: "key ` set (put_item key v xs) = insert (key v) (key ` set xs)"
  by (induction xs) auto

lemma movements_cancelReservation:
  "stockMovements (snd (cancelReservation s rid now)) = stockMovements s"
  by (simp add: cancelReservation_def Let_def split: option.splits)

lemma movements_reserveStock:
  "stockMovements (snd (reserveStock s pid q oid mins rid now)) = stockMovements s"
  by (simp add: reserveStock_def reserveStock_write_def Let_def split: sum.splits)

lemma movements_cleanup_loop:
  "stockMovements (cleanup_loop s items now) = stockMovements s"
  by (induction items arbitrary: s) (simp_all add: movements_cancelReservation)

lemma mids_exec:
  "movementId ` set (stockMovements (exec s x)) \<subseteq>
   movementId ` set (stockMovements s) \<union> set (op_mids x)"
proof (cases x)
  case (Initialize pid sk n loc now mid)
  then show ?thesis
    by (auto simp: initializeInventory_def logStockMovement_def Let_def keys_put_item
        split: option.splits)
next
  case (Update pid q ty ref now mid)
  then show ?thesis
    by (auto simp: updateStock_def logStockMovement_def Let_def keys_put_item
        split: option.splits)
next
  case (Reserve pid q oid mins rid now)
  then show ?thesis by (simp add: movements_reserveStock)
next
  case (Confirm rid now mid)
  then show ?thesis
    by (auto simp: confirmReservation_def logStockMovement_def Let_def keys_put_item
        split: option.splits)
next
  case (Cancel rid now)
  then show ?thesis by (simp add: movements_cancelReservation)
next
  case (Cleanup now)
  then show ?thesis
    by (simp add: cleanupExpiredReservations_def Let_def movements_cleanup_loop)
qed

lemma audit_run:
  "audit_inv s \<Longrightarrow> distinct (concat (map op_mids ops)) \<Longrightarrow>
   set (concat (map op_mids ops)) \<inter> movementId ` set (stockMovements s) = {} \<Longrightarrow>
   audit_inv (run s ops)"
proof (induction ops arbitrary: s)
  case Nil
  then show ?case by (simp add: run_def)
next
  case (Cons x ops)
  have a: "audit_inv (exec s x)"
    using Cons.prems by (intro audit_exec) auto
  have d: "distinct (concat (map op_mids ops))"
    using Cons.prems(2) by simp
  have d1: "set (concat (map op_mids ops)) \<inter> set (op_mids x) = {}"
    using Cons.prems(2) by auto
  have d2: "set (concat (map op_mids ops)) \<inter> movementId ` set (stockMovements s) = {}"
    using Cons.prems(3) by auto
  have "set (concat (map op_mids ops)) \<inter> movementId ` set (stockMovements (exec s x)) = {}"
    using d1 d2 mids_exec [of s x] by blast
  from Cons.IH [OF a d this] show ?case by (simp add: run_def)
qed

lemma audit_inv_empty: "audit_inv empty_tables"
  by (simp add: audit_inv_def empty_tables_def getInventory_def get_item_def movement_sum_def)

subsection \<open>Conservation of stock\<close>

text \<open>Claim C1. Start from empty tables and run any sequence of calls in which every
  \<^verbatim>\<open>initializeInventory\<close> has a non-negative initial stock and every \<^verbatim>\<open>reserveStock\<close>
  a positive quantity (\<^verbatim>\<open>updateStock\<close> may add or remove any amount). After each
  call, that is after the first \<open>n\<close> calls for every \<open>n\<close>, every inventory record
  satisfies \<open>availableStock + reservedStock = totalStock\<close> and its three counters are
  not negative.\<close>

theorem three_counter_invariant:
  assumes ops: "list_all valid_op ops"
    and i: "i \<in> set (inventory (run empty_tables (take n ops)))"
  shows "availableStock i + reservedStock i = totalStock i \<and>
         0 \<le> availableStock i \<and> 0 \<le> reservedStock i \<and> 0 \<le> totalStock i"
proof -
  let ?s = "run empty_tables (take n ops)"
  have v: "\<forall>x \<in> set (take n ops). valid_op x"
    using ops by (meson in_set_takeD list_all_iff)
  have inv: "ledger_inv ?s"
    by (rule ledger_inv_run [OF ledger_inv_empty v])
  have "distinct (map productId (inventory ?s))"
    by (rule keys_run) (simp add: empty_tables_def)
  then have g: "getInventory ?s (productId i) = Some i"
    using i by (simp add: getInventory_def get_item_distinct)
  have q0: "\<forall>r \<in> set (reservations ?s). 0 \<le> quantity r"
    using inv by (simp add: ledger_inv_def)
  have "active_qty (reservations ?s) (productId i) \<le> reservedStock i"
    using inv g by (auto simp: ledger_inv_def dest: spec [of _ "productId i"])
  then have r: "0 \<le> reservedStock i"
    using active_qty_nonneg [OF q0, of "productId i"] by linarith
  have c: "availableStock i + reservedStock i = totalStock i" "0 \<le> availableStock i"
    using inv g by (auto simp: ledger_inv_def)
  show ?thesis using c r by linarith
qed

theorem three_counter_invariant_witness:
  "list_all valid_op scenario \<and>
   p1_item 40 0 40 3000 \<in> set (inventory (run empty_tables (take 3 scenario))) \<and>
   availableStock (p1_item 40 0 40 3000) + reservedStock (p1_item 40 0 40 3000) =
     totalStock (p1_item 40 0 40 3000) \<and>
   0 \<le> availableStock (p1_item 40 0 40 3000) \<and>
   0 \<le> reservedStock (p1_item 40 0 40 3000) \<and>
   0 \<le> totalStock (p1_item 40 0 40 3000)"
proof -
  have v: "list_all valid_op scenario"
    by (simp add: scenario_def)
  have m: "p1_item 40 0 40 3000 \<in> set (inventory (run empty_tables (take 3 scenario)))"
    by (simp add: eval_simps p1_item_def)
  note t = three_counter_invariant [OF v m]
  show ?thesis
    by (intro conjI v m t [THEN conjunct1] t [THEN conjunct2, THEN conjunct1]
        t [THEN conjunct2, THEN conjunct2, THEN conjunct1]
        t [THEN conjunct2, THEN conjunct2, THEN conjunct2])
qed

subsection \<open>Rejected reservations\<close>

text \<open>Claim C2, as the specification states it, does not hold: \<^verbatim>\<open>reserveStock\<close> on a
  product without an inventory item throws the same error as on a product with too
  little available stock, \<^verbatim>\<open>'Insufficient stock available'\<close>, and not the error
  \<^verbatim>\<open>'Inventory not found for this product'\<close> that \<^verbatim>\<open>updateStock\<close> throws for a missing
  item.\<close>

theorem reserve_not_found_counterexample:
  "getInventory empty_tables ''p1'' = None \<and>
   getInventory after_reserve ''p1'' = Some (p1_item 40 10 50 2000) \<and>
   fst (reserveStock empty_tables ''p1'' 1 ''orderA'' None ''r1'' 2000) =
     Inl (Error ''Insufficient stock available'') \<and>
   fst (reserveStock after_reserve ''p1'' 1000 ''orderC'' None ''r3'' 6000) =
     Inl (Error ''Insufficient stock available'') \<and>
   fst (reserveStock empty_tables ''p1'' 1 ''orderA'' None ''r1'' 2000) =
     fst (reserveStock after_reserve ''p1'' 1000 ''orderC'' None ''r3'' 6000) \<and>
   fst (updateStock empty_tables ''p1'' 1 None None 2000 ''m1'') =
     Inl (Error ''Inventory not found for this product'')"
  by (simp add: eval_simps after_reserve_def p1_item_def)

text \<open>Claim C2, amended. A call of \<^verbatim>\<open>reserveStock\<close> for a product that has no inventory
  item, or whose \<open>availableStock\<close> is below the quantity, throws
  \<^verbatim>\<open>'Insufficient stock available'\<close> and writes nothing; this is the only error the
  operation throws, so a missing item has no error of its own.\<close>

theorem reserve_rejects_with_one_error:
  "(getInventory s pid = None \<or>
      (\<exists>iv. getInventory s pid = Some iv \<and> availableStock iv < q) \<longrightarrow>
    reserveStock s pid q oid mins rid now = (Inl (Error ''Insufficient stock available''), s)) \<and>
   (\<forall>e. fst (reserveStock s pid q oid mins rid now) = Inl e \<longrightarrow>
      e = Error ''Insufficient stock available'')"
  by (auto simp: reserveStock_def reserveStock_read_def reserveStock_write_def Let_def
      split: option.splits if_splits)

theorem reserve_rejects_with_one_error_witness:
  "getInventory empty_tables ''p1'' = None \<and>
   reserveStock empty_tables ''p1'' 1 ''orderA'' None ''r1'' 2000 =
     (Inl (Error ''Insufficient stock available''), empty_tables) \<and>
   getInventory after_reserve ''p1'' = Some (p1_item 40 10 50 2000) \<and>
   availableStock (p1_item 40 10 50 2000) < 1000 \<and>
   reserveStock after_reserve ''p1'' 1000 ''orderC'' (Some 15) ''r3'' 6000 =
     (Inl (Error ''Insufficient stock available''), after_reserve)"
proof -
  have h1: "getInventory empty_tables ''p1'' = None"
    by (simp add: eval_simps)
  have h2: "getInventory after_reserve ''p1'' = Some (p1_item 40 10 50 2000)"
    by (simp add: eval_simps after_reserve_def p1_item_def)
  have h3: "availableStock (p1_item 40 10 50 2000) < 1000"
    by (simp add: p1_item_def)
  have c1: "reserveStock empty_tables ''p1'' 1 ''orderA'' None ''r1'' 2000 =
     (Inl (Error ''Insufficient stock available''), empty_tables)"
    by (rule reserve_rejects_with_one_error [THEN conjunct1, THEN mp]) (simp add: h1)
  have c2: "reserveStock after_reserve ''p1'' 1000 ''orderC'' (Some 15) ''r3'' 6000 =
     (Inl (Error ''Insufficient stock available''), after_reserve)"
    by (rule reserve_rejects_with_one_error [THEN conjunct1, THEN mp]) (simp add: h2 h3)
  show ?thesis
    by (intro conjI h1 h2 h3 c1 c2)
qed

subsection \<open>Two reservations at the same time\<close>

text \<open>Claim C3 (no oversell under concurrent reservations) does not hold of the code:
  \<^verbatim>\<open>reserveStock\<close> reads the counters and writes the new ones in separate requests to
  the store, with no condition on the write. Two requests for ten units each arrive for a product with
  ten units. Run one after the other, the second is rejected. When both read the inventory
  before either writes, both pass the check with the same new counters \<open>(0, 10)\<close>, both
  write them and both store an \<open>ACTIVE\<close> reservation: twenty units are reserved out of a
  \<open>totalStock\<close> of ten, and \<open>reservedStock\<close> is ten.\<close>

theorem concurrent_reserve_oversells:
  "fst (reserveStock (snd (reserveStock stocked10 ''p1'' 10 ''orderA'' None ''r1'' 2000))
          ''p1'' 10 ''orderB'' None ''r2'' 2001) =
     Inl (Error ''Insufficient stock available'') \<and>
   reserveStock_read stocked10 ''p1'' 10 = Inr (0, 10) \<and>
   (let s1 = snd (reserveStock_write stocked10 ''p1'' 10 ''orderA'' 15 ''r1'' 2000 (0, 10));
        s2 = snd (reserveStock_write s1 ''p1'' 10 ''orderB'' 15 ''r2'' 2001 (0, 10))
    in map (\<lambda>r. (reservationId r, quantity r, status r)) (reservations s2) =
         [(''r1'', 10, ACTIVE), (''r2'', 10, ACTIVE)] \<and>
       map (\<lambda>i. (availableStock i, reservedStock i, totalStock i)) (inventory s2) =
         [(0, 10, 10)] \<and>
       active_qty (reservations s2) ''p1'' = 20)"
  by (simp add: eval_simps stocked10_def active_qty_def)

subsection \<open>Confirming a reservation\<close>

text \<open>Claim C4. Let the reservation stored under the id be \<open>ACTIVE\<close> with quantity \<open>q\<close>, let
  its product have an inventory item, and let the generated movement id be new. Then
  \<^verbatim>\<open>confirmReservation\<close> succeeds; the item has \<open>reservedStock\<close> and \<open>totalStock\<close> lowered
  by \<open>q\<close> and \<open>availableStock\<close> as before; the stored reservation is \<open>CONFIRMED\<close>; and
  the movement log is the old one followed by one \<^verbatim>\<open>SALE\<close> movement of quantity \<open>- q\<close>
  whose reference is \<^verbatim>\<open>Order: \<close> and the order id.\<close>

theorem confirm_active_reservation:
  assumes r: "get_item reservationId rid (reservations s) = Some r" "status r = ACTIVE"
    and cur: "getInventory s (productId_r r) = Some cur"
    and fresh: "mid \<notin> movementId ` set (stockMovements s)"
  shows "fst (confirmReservation s rid now mid) =
           Inr \<lparr>success = True, message = None, reservation = Some r\<rparr> \<and>
         getInventory (snd (confirmReservation s rid now mid)) (productId_r r) =
           Some (cur\<lparr>reservedStock := reservedStock cur - quantity r,
                      totalStock := totalStock cur - quantity r, updatedAt := now\<rparr>) \<and>
         availableStock (cur\<lparr>reservedStock := reservedStock cur - quantity r,
                      totalStock := totalStock cur - quantity r, updatedAt := now\<rparr>) =
           availableStock cur \<and>
         get_item reservationId rid (reservations (snd (confirmReservation s rid now mid))) =
           Some (r\<lparr>status := CONFIRMED\<rparr>) \<and>
         stockMovements (snd (confirmReservation s rid now mid)) =
           stockMovements s @
             [\<lparr>movementId = mid, productId_m = productId_r r, type_m = ''SALE'',
               quantity_m = - quantity r, reference = ''Order: '' @ orderId r,
               timestamp = now\<rparr>]"
  using r cur fresh
  by (simp add: confirmReservation_def logStockMovement_def Let_def getInventory_def
      get_item_update_item put_item_fresh)

theorem confirm_active_reservation_witness:
  "get_item reservationId ''r1'' (reservations after_reserve) = Some r1_active \<and>
   status r1_active = ACTIVE \<and>
   getInventory after_reserve ''p1'' = Some (p1_item 40 10 50 2000) \<and>
   ''m2'' \<notin> movementId ` set (stockMovements after_reserve) \<and>
   getInventory (snd (confirmReservation after_reserve ''r1'' 3000 ''m2'')) ''p1'' =
     Some (p1_item 40 0 40 3000) \<and>
   get_item reservationId ''r1''
       (reservations (snd (confirmReservation after_reserve ''r1'' 3000 ''m2''))) =
     Some (r1_active\<lparr>status := CONFIRMED\<rparr>) \<and>
   map quantity_m (stockMovements (snd (confirmReservation after_reserve ''r1'' 3000 ''m2''))) =
     [50, - 10]"
proof -
  have h1: "get_item reservationId ''r1'' (reservations after_reserve) = Some r1_active"
    by (simp add: eval_simps after_reserve_def r1_active_def p1_item_def)
  have h2: "status r1_active = ACTIVE"
    by (simp add: r1_active_def)
  have h3: "getInventory after_reserve (productId_r r1_active) = Some (p1_item 40 10 50 2000)"
    by (simp add: eval_simps after_reserve_def r1_active_def p1_item_def)
  have h4: "''m2'' \<notin> movementId ` set (stockMovements after_reserve)"
    by (simp add: eval_simps after_reserve_def r1_active_def p1_item_def)
  have m: "map quantity_m (stockMovements after_reserve) = [50]"
    by (simp add: eval_simps after_reserve_def r1_active_def p1_item_def)
  have p: "productId_r r1_active = ''p1''" "quantity r1_active = 10"
    by (simp_all add: r1_active_def)
  show ?thesis
    using confirm_active_reservation [OF h1 h2 h3 h4, of 3000] h1 h2 h3 h4 m
    by (simp add: p p1_item_def)
qed

subsection \<open>Cancelling twice\<close>

text \<open>Claim C5. Let a reservation be stored under the id and let its product have an
  inventory item. If the reservation is \<open>ACTIVE\<close>, the first \<^verbatim>\<open>cancelReservation\<close>
  cancels it: it succeeds, the stored status becomes \<open>CANCELLED\<close> and the quantity moves
  from \<open>reservedStock\<close> to \<open>availableStock\<close>. Whatever the status was, a second call
  answers \<^verbatim>\<open>{ success: true, message: 'Reservation already processed' }\<close> and leaves
  all tables, hence the three counters, as the first call left them.\<close>

theorem cancel_twice:
  assumes r: "get_item reservationId rid (reservations s) = Some r"
    and cur: "getInventory s (productId_r r) = Some cur"
  shows "(status r = ACTIVE \<longrightarrow>
            fst (cancelReservation s rid now) =
              Inr \<lparr>success = True, message = None, reservation = Some r\<rparr> \<and>
            get_item reservationId rid (reservations (snd (cancelReservation s rid now))) =
              Some (r\<lparr>status := CANCELLED\<rparr>) \<and>
            getInventory (snd (cancelReservation s rid now)) (productId_r r) =
              Some (cur\<lparr>availableStock := availableStock cur + quantity r,
                         reservedStock := reservedStock cur - quantity r,
                         updatedAt := now\<rparr>)) \<and>
         cancelReservation (snd (cancelReservation s rid now)) rid now' =
           (Inr \<lparr>success = True, message = Some ''Reservation already processed'',
                 reservation = None\<rparr>,
            snd (cancelReservation s rid now))"
proof (cases "status r = ACTIVE")
  case False
  then show ?thesis using r by (simp add: cancelReservation_def)
next
  case True
  let ?s1 = "snd (cancelReservation s rid now)"
  have st: "get_item reservationId rid (reservations ?s1) = Some (r\<lparr>status := CANCELLED\<rparr>)"
    using r cur True by (simp add: cancelReservation_def Let_def get_item_update_item)
  have second: "cancelReservation ?s1 rid now' =
      (Inr \<lparr>success = True, message = Some ''Reservation already processed'',
            reservation = None\<rparr>, ?s1)"
    unfolding cancelReservation_def [of ?s1] using st by simp
  have first: "fst (cancelReservation s rid now) =
      Inr \<lparr>success = True, message = None, reservation = Some r\<rparr>"
    using r cur True by (simp add: cancelReservation_def Let_def)
  have inv: "getInventory ?s1 (productId_r r) =
      Some (cur\<lparr>availableStock := availableStock cur + quantity r,
                 reservedStock := reservedStock cur - quantity r, updatedAt := now\<rparr>)"
    using r cur True
    by (simp add: cancelReservation_def Let_def getInventory_def get_item_update_item)
  show ?thesis using first st inv second by simp
qed

theorem cancel_twice_witness:
  "get_item reservationId ''r2'' (reservations after_second_reserve) = Some r2_active \<and>
   getInventory after_second_reserve ''p1'' = Some (p1_item 35 5 40 4000) \<and>
   status r2_active = ACTIVE \<and>
   get_item reservationId ''r2''
       (reservations (snd (cancelReservation after_second_reserve ''r2'' 5000))) =
     Some (r2_active\<lparr>status := CANCELLED\<rparr>) \<and>
   getInventory (snd (cancelReservation after_second_reserve ''r2'' 5000)) ''p1'' =
     Some (p1_item 40 0 40 5000) \<and>
   cancelReservation (snd (cancelReservation after_second_reserve ''r2'' 5000)) ''r2'' 6000 =
     (Inr \<lparr>success = True, message = Some ''Reservation already processed'',
           reservation = None\<rparr>,
      snd (cancelReservation after_second_reserve ''r2'' 5000))"
proof -
  have h1: "get_item reservationId ''r2'' (reservations after_second_reserve) = Some r2_active"
    by (simp add: eval_simps after_second_reserve_def r2_active_def p1_item_def)
  have h2: "status r2_active = ACTIVE"
    by (simp add: r2_active_def)
  have h3: "getInventory after_second_reserve (productId_r r2_active) =
      Some (p1_item 35 5 40 4000)"
    by (simp add: eval_simps after_second_reserve_def r2_active_def p1_item_def)
  have h3': "getInventory after_second_reserve ''p1'' = Some (p1_item 35 5 40 4000)"
    using h3 by (simp add: r2_active_def)
  note t = cancel_twice [OF h1 h3, of 5000 6000]
  note a = t [THEN conjunct1, THEN mp, OF h2]
  have u: "(p1_item 35 5 40 4000)\<lparr>availableStock := availableStock (p1_item 35 5 40 4000) +
        quantity r2_active,
      reservedStock := reservedStock (p1_item 35 5 40 4000) - quantity r2_active,
      updatedAt := 5000\<rparr> = p1_item 40 0 40 5000"
    by (simp add: p1_item_def r2_active_def)
  have p: "productId_r r2_active = ''p1''"
    by (simp add: r2_active_def)
  have c: "getInventory (snd (cancelReservation after_second_reserve ''r2'' 5000)) ''p1'' =
     Some (p1_item 40 0 40 5000)"
    using a [THEN conjunct2, THEN conjunct2] unfolding u p .
  show ?thesis
    by (intro conjI h1 h3' h2 a [THEN conjunct2, THEN conjunct1] c t [THEN conjunct2])
qed

subsection \<open>Confirm and cancel exclude each other\<close>

text \<open>Claim C6. On a reservation whose stored status is \<open>CONFIRMED\<close>,
  \<^verbatim>\<open>cancelReservation\<close> answers \<^verbatim>\<open>'Reservation already processed'\<close> and changes no
  table. On a reservation whose stored status is \<open>CANCELLED\<close>, \<^verbatim>\<open>confirmReservation\<close>
  throws \<^verbatim>\<open>'Reservation is not active'\<close> (the specification's \<^verbatim>\<open>InvalidState\<close>). On an
  id under which nothing is stored it throws \<^verbatim>\<open>'Reservation not found'\<close>
  (\<^verbatim>\<open>NotFound\<close>). The tables are unchanged in all three cases.\<close>

theorem confirm_cancel_exclusive:
  "(get_item reservationId rid (reservations s) = Some r \<and> status r = CONFIRMED \<longrightarrow>
      cancelReservation s rid now =
        (Inr \<lparr>success = True, message = Some ''Reservation already processed'',
              reservation = None\<rparr>, s)) \<and>
   (get_item reservationId rid (reservations s) = Some r \<and> status r = CANCELLED \<longrightarrow>
      confirmReservation s rid now mid = (Inl (Error ''Reservation is not active''), s)) \<and>
   (get_item reservationId rid (reservations s) = None \<longrightarrow>
      confirmReservation s rid now mid = (Inl (Error ''Reservation not found''), s))"
  by (simp add: cancelReservation_def confirmReservation_def)

theorem confirm_cancel_exclusive_witness:
  "get_item reservationId ''r1'' (reservations after_all) = Some (r1_active\<lparr>status := CONFIRMED\<rparr>) \<and>
   status (r1_active\<lparr>status := CONFIRMED\<rparr>) = CONFIRMED \<and>
   cancelReservation after_all ''r1'' 6000 =
     (Inr \<lparr>success = True, message = Some ''Reservation already processed'',
           reservation = None\<rparr>, after_all) \<and>
   get_item reservationId ''r2'' (reservations after_all) = Some (r2_active\<lparr>status := CANCELLED\<rparr>) \<and>
   status (r2_active\<lparr>status := CANCELLED\<rparr>) = CANCELLED \<and>
   confirmReservation after_all ''r2'' 6000 ''m3'' =
     (Inl (Error ''Reservation is not active''), after_all) \<and>
   get_item reservationId ''r3'' (reservations after_all) = None \<and>
   confirmReservation after_all ''r3'' 6000 ''m3'' =
     (Inl (Error ''Reservation not found''), after_all)"
proof -
  have h1: "get_item reservationId ''r1'' (reservations after_all) =
      Some (r1_active\<lparr>status := CONFIRMED\<rparr>)"
    by (simp add: eval_simps after_all_def r1_active_def r2_active_def)
  have h2: "get_item reservationId ''r2'' (reservations after_all) =
      Some (r2_active\<lparr>status := CANCELLED\<rparr>)"
    by (simp add: eval_simps after_all_def r1_active_def r2_active_def)
  have h3: "get_item reservationId ''r3'' (reservations after_all) = None"
    by (simp add: eval_simps after_all_def r1_active_def r2_active_def)
  have c1: "cancelReservation after_all ''r1'' 6000 =
     (Inr \<lparr>success = True, message = Some ''Reservation already processed'',
           reservation = None\<rparr>, after_all)"
    using confirm_cancel_exclusive
      [of "''r1''" after_all "r1_active\<lparr>status := CONFIRMED\<rparr>" 6000 "''m3''"] h1
    by simp
  have c2: "confirmReservation after_all ''r2'' 6000 ''m3'' =
     (Inl (Error ''Reservation is not active''), after_all)"
    using confirm_cancel_exclusive
      [of "''r2''" after_all "r2_active\<lparr>status := CANCELLED\<rparr>" 6000 "''m3''"] h2
    by simp
  have c3: "confirmReservation after_all ''r3'' 6000 ''m3'' =
     (Inl (Error ''Reservation not found''), after_all)"
    using confirm_cancel_exclusive [of "''r3''" after_all r1_active 6000 "''m3''"] h3
    by simp
  show ?thesis
    using h1 h2 h3 c1 c2 c3 by simp
qed

subsection \<open>Initialising a product\<close>

text \<open>Claim C7. When the product has no inventory item (and the generated movement id is
  new), \<^verbatim>\<open>initializeInventory\<close> returns and stores an item with
  \<open>availableStock = totalStock = initialStock\<close> and \<open>reservedStock = 0\<close>, and the movement
  log is the old one followed by one \<^verbatim>\<open>INITIAL\<close> movement of quantity \<open>initialStock\<close>.
  When the product has an item, the call throws
  \<^verbatim>\<open>'Inventory already exists for this product'\<close> and all tables, the existing item
  among them, are unchanged. The test for absence is the condition of the put itself
  (\<^verbatim>\<open>attribute_not_exists(productId)\<close>), one request to the store.\<close>

theorem initialize_creates_or_rejects:
  "(getInventory s pid = None \<and> mid \<notin> movementId ` set (stockMovements s) \<longrightarrow>
      fst (initializeInventory s pid sk n loc now mid) =
        Inr \<lparr>productId = pid, sku = sk, availableStock = n, reservedStock = 0,
             totalStock = n, location = (case loc of None \<Rightarrow> ''default'' | Some l \<Rightarrow> l),
             lowStockThreshold = 10, reorderPoint = 20, reorderQuantity = 50,
             lastRestocked = now, createdAt = now, updatedAt = now\<rparr> \<and>
      getInventory (snd (initializeInventory s pid sk n loc now mid)) pid =
        Some \<lparr>productId = pid, sku = sk, availableStock = n, reservedStock = 0,
             totalStock = n, location = (case loc of None \<Rightarrow> ''default'' | Some l \<Rightarrow> l),
             lowStockThreshold = 10, reorderPoint = 20, reorderQuantity = 50,
             lastRestocked = now, createdAt = now, updatedAt = now\<rparr> \<and>
      stockMovements (snd (initializeInventory s pid sk n loc now mid)) =
        stockMovements s @
          [\<lparr>movementId = mid, productId_m = pid, type_m = ''INITIAL'', quantity_m = n,
            reference = ''System initialization'', timestamp = now\<rparr>]) \<and>
   (getInventory s pid = Some old \<longrightarrow>
      initializeInventory s pid sk n loc now mid =
        (Inl (Error ''Inventory already exists for this product''), s))"
  by (simp add: initializeInventory_def logStockMovement_def Let_def getInventory_def
      get_item_put_item put_item_fresh)

theorem initialize_creates_or_rejects_witness:
  "getInventory empty_tables ''p1'' = None \<and>
   ''m1'' \<notin> movementId ` set (stockMovements empty_tables) \<and>
   getInventory
       (snd (initializeInventory empty_tables ''p1'' ''SKU1'' 50 (Some ''WH-A'') 1000 ''m1''))
       ''p1'' = Some (p1_item 50 0 50 1000) \<and>
   map quantity_m (stockMovements
       (snd (initializeInventory empty_tables ''p1'' ''SKU1'' 50 (Some ''WH-A'') 1000 ''m1''))) =
     [50] \<and>
   getInventory after_reserve ''p1'' = Some (p1_item 40 10 50 2000) \<and>
   initializeInventory after_reserve ''p1'' ''SKU1'' 7 None 3000 ''m2'' =
     (Inl (Error ''Inventory already exists for this product''), after_reserve)"
proof -
  have h1: "getInventory empty_tables ''p1'' = None"
    by (simp add: eval_simps)
  have h2: "''m1'' \<notin> movementId ` set (stockMovements empty_tables)"
    by (simp add: eval_simps)
  have h3: "getInventory after_reserve ''p1'' = Some (p1_item 40 10 50 2000)"
    by (simp add: eval_simps after_reserve_def p1_item_def)
  have e: "stockMovements empty_tables = []"
    by (simp add: empty_tables_def)
  have c1: "getInventory
       (snd (initializeInventory empty_tables ''p1'' ''SKU1'' 50 (Some ''WH-A'') 1000 ''m1''))
       ''p1'' = Some (p1_item 50 0 50 1000)"
    using initialize_creates_or_rejects [of empty_tables "''p1''" "''m1''" "''SKU1''" 50
        "Some ''WH-A''" 1000 "p1_item 40 10 50 2000"] h1 h2
    by (simp add: p1_item_def)
  have c2: "map quantity_m (stockMovements
       (snd (initializeInventory empty_tables ''p1'' ''SKU1'' 50 (Some ''WH-A'') 1000 ''m1''))) =
     [50]"
    using initialize_creates_or_rejects [of empty_tables "''p1''" "''m1''" "''SKU1''" 50
        "Some ''WH-A''" 1000 "p1_item 40 10 50 2000"] h1 h2
    by (simp add: e)
  have c3: "initializeInventory after_reserve ''p1'' ''SKU1'' 7 None 3000 ''m2'' =
     (Inl (Error ''Inventory already exists for this product''), after_reserve)"
    using initialize_creates_or_rejects [of after_reserve "''p1''" "''m2''" "''SKU1''" 7
        None 3000 "p1_item 40 10 50 2000"] h3
    by simp
  show ?thesis
    by (intro conjI h1 h2 h3 c1 c2 c3)
qed

subsection \<open>The sweep of expired reservations\<close>

text \<open>In tables whose reservations have pairwise different ids and name products that
  have an inventory item (the tables the service itself produces), the sweep cancels
  every expired \<open>ACTIVE\<close> reservation, and a later sweep does not find it again. In any
  tables, a cancel that throws leaves the loop to go on with the remaining items.\<close>

lemma cancel_other_reservation:
  "rid' \<noteq> rid \<Longrightarrow>
   get_item reservationId rid (reservations (snd (cancelReservation s rid' now))) =
   get_item reservationId rid (reservations s)"
  by (simp add: cancelReservation_def Let_def get_item_update_item split: option.splits)

lemma cancel_keeps_products:
  "getInventory (snd (cancelReservation s rid now)) p = None \<longleftrightarrow> getInventory s p = None"
  by (auto simp: cancelReservation_def Let_def getInventory_def get_item_update_item
      split: option.splits)

lemma cleanup_loop_other_reservation:
  "rid \<notin> reservationId ` set items \<Longrightarrow>
   get_item reservationId rid (reservations (cleanup_loop s items now)) =
   get_item reservationId rid (reservations s)"
  by (induction items arbitrary: s) (auto simp: cancel_other_reservation)

lemma cancel_active_status:
  "get_item reservationId rid (reservations s) = Some r \<Longrightarrow> status r = ACTIVE \<Longrightarrow>
   getInventory s (productId_r r) \<noteq> None \<Longrightarrow>
   get_item reservationId rid (reservations (snd (cancelReservation s rid now))) =
     Some (r\<lparr>status := CANCELLED\<rparr>)"
  by (auto simp: cancelReservation_def Let_def get_item_update_item)

lemma cleanup_loop_reclaims:
  assumes "distinct (map reservationId items)"
    and "\<forall>r \<in> set items. get_item reservationId (reservationId r) (reservations s) = Some r \<and>
           status r = ACTIVE \<and> getInventory s (productId_r r) \<noteq> None"
    and "r \<in> set items"
  shows "get_item reservationId (reservationId r) (reservations (cleanup_loop s items now)) =
           Some (r\<lparr>status := CANCELLED\<rparr>)"
  using assms
proof (induction items arbitrary: s)
  case Nil
  then show ?case by simp
next
  case (Cons x xs)
  let ?s1 = "snd (cancelReservation s (reservationId x) now)"
  have x: "get_item reservationId (reservationId x) (reservations s) = Some x"
    "status x = ACTIVE" "getInventory s (productId_r x) \<noteq> None"
    using Cons.prems(2) by auto
  show ?case
  proof (cases "r = x")
    case True
    have "reservationId x \<notin> reservationId ` set xs"
      using Cons.prems(1) by auto
    then show ?thesis
      using True cancel_active_status [OF x]
      by (simp add: cleanup_loop_other_reservation)
  next
    case False
    then have rin: "r \<in> set xs" using Cons.prems(3) by simp
    have d: "distinct (map reservationId xs)" using Cons.prems(1) by simp
    have pre: "\<forall>y \<in> set xs.
        get_item reservationId (reservationId y) (reservations ?s1) = Some y \<and>
        status y = ACTIVE \<and> getInventory ?s1 (productId_r y) \<noteq> None"
    proof
      fix y assume y: "y \<in> set xs"
      then have ne: "reservationId x \<noteq> reservationId y"
        using Cons.prems(1) by auto
      show "get_item reservationId (reservationId y) (reservations ?s1) = Some y \<and>
        status y = ACTIVE \<and> getInventory ?s1 (productId_r y) \<noteq> None"
        using Cons.prems(2) y ne
        by (simp add: cancel_other_reservation cancel_keeps_products)
    qed
    from Cons.IH [OF d pre rin] show ?thesis by simp
  qed
qed

lemma ids_cancelReservation:
  "map reservationId (reservations (snd (cancelReservation s rid now))) =
   map reservationId (reservations s)"
  by (simp add: cancelReservation_def Let_def map_key_update_item split: option.splits)

lemma ids_cleanup_loop:
  "map reservationId (reservations (cleanup_loop s items now)) =
   map reservationId (reservations s)"
  by (induction items arbitrary: s) (simp_all add: ids_cancelReservation)

lemma sweep_reclaims_expired:
  assumes d: "distinct (map reservationId (reservations s))"
    and p: "\<forall>r \<in> set (reservations s). getInventory s (productId_r r) \<noteq> None"
    and r: "r \<in> set (reservations s)" "status r = ACTIVE" "expiresAt r < now"
  shows "get_item reservationId (reservationId r)
           (reservations (snd (cleanupExpiredReservations s now))) =
           Some (r\<lparr>status := CANCELLED\<rparr>) \<and>
         reservationId r \<notin>
           reservationId ` set (cleanup_scan (snd (cleanupExpiredReservations s now)) now')"
proof -
  let ?s' = "snd (cleanupExpiredReservations s now)"
  have a: "distinct (map reservationId (cleanup_scan s now))"
    using d by (simp add: cleanup_scan_def distinct_map_filter)
  have b: "\<forall>x \<in> set (cleanup_scan s now).
      get_item reservationId (reservationId x) (reservations s) = Some x \<and>
      status x = ACTIVE \<and> getInventory s (productId_r x) \<noteq> None"
    using d p by (auto simp: cleanup_scan_def get_item_distinct)
  have c: "r \<in> set (cleanup_scan s now)"
    using r by (simp add: cleanup_scan_def)
  have g: "get_item reservationId (reservationId r) (reservations ?s') =
      Some (r\<lparr>status := CANCELLED\<rparr>)"
    using cleanup_loop_reclaims [OF a b c, of now]
    by (simp add: cleanupExpiredReservations_def Let_def)
  have d': "distinct (map reservationId (reservations ?s'))"
    using d by (simp add: cleanupExpiredReservations_def Let_def ids_cleanup_loop)
  have "reservationId x \<noteq> reservationId r" if x: "x \<in> set (cleanup_scan ?s' now')" for x
  proof
    assume e: "reservationId x = reservationId r"
    have "x \<in> set (reservations ?s')" "status x = ACTIVE"
      using x by (simp_all add: cleanup_scan_def)
    then show False
      using get_item_distinct [OF d', of x] g e by auto
  qed
  then have "reservationId r \<notin> reservationId ` set (cleanup_scan ?s' now')"
    by (metis imageE)
  with g show ?thesis by simp
qed

lemma cleanup_loop_skips_failure:
  "fst (cancelReservation s (reservationId r) now) = Inl e \<Longrightarrow>
   cleanup_loop s (r # rs) now = cleanup_loop s rs now"
  by (auto simp: cancelReservation_def Let_def split: option.splits if_splits)

text \<open>Claim C8 asks that the number returned by the sweep be the number of reservations
  reclaimed. \<^verbatim>\<open>cleanupExpiredReservations\<close> returns \<^verbatim>\<open>result.Items.length\<close>, the number
  of reservations the scan found, whatever became of each cancel. In the tables
  \<open>orphaned\<close> the cancel of \<^verbatim>\<open>r0\<close> throws (its product has no item); the sweep goes on and
  cancels \<^verbatim>\<open>r2\<close>, and returns \<open>2\<close> with one reservation reclaimed; \<^verbatim>\<open>r0\<close> stays
  \<open>ACTIVE\<close> and the next sweep counts it again. Likewise, when a reservation found by the
  scan is confirmed before the loop reaches it, its cancel is the no-op of an already
  processed reservation, the tables stay as they are, and it is counted all the same.\<close>

theorem cleanup_counts_unreclaimed:
  "cleanup_scan orphaned 1000000 = [r0_orphan, r2_active] \<and>
   fst (cancelReservation orphaned ''r0'' 1000000) = Inl TypeError \<and>
   fst (cleanupExpiredReservations orphaned 1000000) = 2 \<and>
   map status (reservations (snd (cleanupExpiredReservations orphaned 1000000))) =
     [ACTIVE, CANCELLED] \<and>
   map (\<lambda>i. (availableStock i, reservedStock i, totalStock i))
       (inventory (snd (cleanupExpiredReservations orphaned 1000000))) = [(40, 0, 40)] \<and>
   fst (cleanupExpiredReservations (snd (cleanupExpiredReservations orphaned 1000000)) 2000000)
     = 1 \<and>
   cleanup_scan after_second_reserve 1000000 = [r2_active] \<and>
   (let s1 = snd (confirmReservation after_second_reserve ''r2'' 999000 ''m3'')
    in cleanup_loop s1 [r2_active] 1000000 = s1 \<and>
       map status (reservations s1) = [CONFIRMED, CONFIRMED])"
  by (simp add: eval_simps orphaned_def r0_orphan_def r2_active_def p1_item_def
      after_second_reserve_def)

subsection \<open>The audit trail\<close>

lemma total_reserveStock:
  "totalStock_of (snd (reserveStock s pid q oid mins rid now)) p = totalStock_of s p"
  by (auto simp: reserveStock_def reserveStock_read_def reserveStock_write_def Let_def
      getInventory_def totalStock_of_def get_item_update_item split: option.splits)

lemma total_cancelReservation:
  "totalStock_of (snd (cancelReservation s rid now)) p = totalStock_of s p"
  by (auto simp: cancelReservation_def Let_def getInventory_def totalStock_of_def
      get_item_update_item split: option.splits)

text \<open>Claim C9. Start from empty tables and run any sequence of calls whose generated
  movement identifiers are pairwise different (what \<^verbatim>\<open>uuidv4\<close> provides). For every
  product, the quantities of the stock movements logged for it add up to the
  \<open>totalStock\<close> of its record, and to \<open>0\<close> when it has no record. Call by call, with
  a new movement id: \<^verbatim>\<open>initializeInventory\<close> on a product without an item,
  \<^verbatim>\<open>updateStock\<close> on a product whose available stock stays non-negative, and
  \<^verbatim>\<open>confirmReservation\<close> on an \<open>ACTIVE\<close> reservation whose product has an item
  succeed, add exactly one movement to the log, for that product, and change the
  \<open>totalStock\<close> of that product by the quantity of that movement (\<open>initialStock\<close>, the
  given quantity, minus the reserved quantity) and of no other product.
  \<^verbatim>\<open>reserveStock\<close> and \<^verbatim>\<open>cancelReservation\<close>, whatever their outcome, leave the
  movement log and every \<open>totalStock\<close> as they are.\<close>

theorem audit_trail_reconstruction:
  assumes "distinct (concat (map op_mids ops))"
  shows "movement_sum (stockMovements (run empty_tables ops)) p =
           (case getInventory (run empty_tables ops) p of
              None \<Rightarrow> 0 | Some i \<Rightarrow> totalStock i) \<and>
         stockMovements (snd (reserveStock s pid q oid mins rid now)) = stockMovements s \<and>
         stockMovements (snd (cancelReservation s rid now)) = stockMovements s \<and>
         (\<forall>p'. totalStock_of (snd (reserveStock s pid q oid mins rid now)) p' =
                totalStock_of s p') \<and>
         (\<forall>p'. totalStock_of (snd (cancelReservation s rid now)) p' = totalStock_of s p') \<and>
         (getInventory si pi = None \<and> mi \<notin> movementId ` set (stockMovements si) \<longrightarrow>
            \<not> isl (fst (initializeInventory si pi sk n loc ti mi)) \<and>
            stockMovements (snd (initializeInventory si pi sk n loc ti mi)) =
              stockMovements si @
                [\<lparr>movementId = mi, productId_m = pi, type_m = ''INITIAL'', quantity_m = n,
                  reference = ''System initialization'', timestamp = ti\<rparr>] \<and>
            (\<forall>p'. totalStock_of (snd (initializeInventory si pi sk n loc ti mi)) p' =
                   totalStock_of si p' + (if p' = pi then n else 0))) \<and>
         (getInventory su pu = Some cur \<and> 0 \<le> availableStock cur + qu \<and>
          mu \<notin> movementId ` set (stockMovements su) \<longrightarrow>
            \<not> isl (fst (updateStock su pu qu ty ref tu mu)) \<and>
            stockMovements (snd (updateStock su pu qu ty ref tu mu)) =
              stockMovements su @
                [\<lparr>movementId = mu, productId_m = pu,
                  type_m = (case ty of None \<Rightarrow> ''ADJUSTMENT'' | Some t \<Rightarrow> t),
                  quantity_m = qu,
                  reference = (case ref of None \<Rightarrow> [] | Some x \<Rightarrow> x), timestamp = tu\<rparr>] \<and>
            getInventory (snd (updateStock su pu qu ty ref tu mu)) pu =
              Some (cur\<lparr>availableStock := availableStock cur + qu,
                         totalStock := totalStock cur + qu, updatedAt := tu\<rparr>) \<and>
            (\<forall>p'. totalStock_of (snd (updateStock su pu qu ty ref tu mu)) p' =
                   totalStock_of su p' + (if p' = pu then qu else 0))) \<and>
         (get_item reservationId rc (reservations sc) = Some r \<and> status r = ACTIVE \<and>
          getInventory sc (productId_r r) = Some curc \<and>
          mc \<notin> movementId ` set (stockMovements sc) \<longrightarrow>
            \<not> isl (fst (confirmReservation sc rc tc mc)) \<and>
            stockMovements (snd (confirmReservation sc rc tc mc)) =
              stockMovements sc @
                [\<lparr>movementId = mc, productId_m = productId_r r, type_m = ''SALE'',
                  quantity_m = - quantity r, reference = ''Order: '' @ orderId r,
                  timestamp = tc\<rparr>] \<and>
            (\<forall>p'. totalStock_of (snd (confirmReservation sc rc tc mc)) p' =
                   totalStock_of sc p' + (if p' = productId_r r then - quantity r else 0)))"
proof -
  have "audit_inv (run empty_tables ops)"
    by (rule audit_run [OF audit_inv_empty assms]) (simp add: empty_tables_def)
  then have sum: "movement_sum (stockMovements (run empty_tables ops)) p =
           (case getInventory (run empty_tables ops) p of
              None \<Rightarrow> 0 | Some i \<Rightarrow> totalStock i)"
    by (simp add: audit_inv_def)
  have ini: "getInventory si pi = None \<and> mi \<notin> movementId ` set (stockMovements si) \<longrightarrow>
            \<not> isl (fst (initializeInventory si pi sk n loc ti mi)) \<and>
            stockMovements (snd (initializeInventory si pi sk n loc ti mi)) =
              stockMovements si @
                [\<lparr>movementId = mi, productId_m = pi, type_m = ''INITIAL'', quantity_m = n,
                  reference = ''System initialization'', timestamp = ti\<rparr>] \<and>
            (\<forall>p'. totalStock_of (snd (initializeInventory si pi sk n loc ti mi)) p' =
                   totalStock_of si p' + (if p' = pi then n else 0))"
    by (auto simp: initializeInventory_def logStockMovement_def Let_def getInventory_def
        totalStock_of_def get_item_put_item put_item_fresh)
  have upd: "getInventory su pu = Some cur \<and> 0 \<le> availableStock cur + qu \<and>
          mu \<notin> movementId ` set (stockMovements su) \<longrightarrow>
            \<not> isl (fst (updateStock su pu qu ty ref tu mu)) \<and>
            stockMovements (snd (updateStock su pu qu ty ref tu mu)) =
              stockMovements su @
                [\<lparr>movementId = mu, productId_m = pu,
                  type_m = (case ty of None \<Rightarrow> ''ADJUSTMENT'' | Some t \<Rightarrow> t),
                  quantity_m = qu,
                  reference = (case ref of None \<Rightarrow> [] | Some x \<Rightarrow> x), timestamp = tu\<rparr>] \<and>
            getInventory (snd (updateStock su pu qu ty ref tu mu)) pu =
              Some (cur\<lparr>availableStock := availableStock cur + qu,
                         totalStock := totalStock cur + qu, updatedAt := tu\<rparr>) \<and>
            (\<forall>p'. totalStock_of (snd (updateStock su pu qu ty ref tu mu)) p' =
                   totalStock_of su p' + (if p' = pu then qu else 0))"
    by (auto simp: updateStock_def logStockMovement_def Let_def getInventory_def
        totalStock_of_def get_item_update_item put_item_fresh)
  have con: "get_item reservationId rc (reservations sc) = Some r \<and> status r = ACTIVE \<and>
          getInventory sc (productId_r r) = Some curc \<and>
          mc \<notin> movementId ` set (stockMovements sc) \<longrightarrow>
            \<not> isl (fst (confirmReservation sc rc tc mc)) \<and>
            stockMovements (snd (confirmReservation sc rc tc mc)) =
              stockMovements sc @
                [\<lparr>movementId = mc, productId_m = productId_r r, type_m = ''SALE'',
                  quantity_m = - quantity r, reference = ''Order: '' @ orderId r,
                  timestamp = tc\<rparr>] \<and>
            (\<forall>p'. totalStock_of (snd (confirmReservation sc rc tc mc)) p' =
                   totalStock_of sc p' + (if p' = productId_r r then - quantity r else 0))"
    by (auto simp: confirmReservation_def logStockMovement_def Let_def getInventory_def
        totalStock_of_def get_item_update_item put_item_fresh)
  show ?thesis
    by (intro conjI sum movements_reserveStock movements_cancelReservation
        allI total_reserveStock total_cancelReservation ini upd con)
qed

theorem audit_trail_reconstruction_witness:
  "distinct (concat (map op_mids scenario)) \<and>
   movement_sum (stockMovements (run empty_tables scenario)) ''p1'' = 40 \<and>
   map totalStock (inventory (run empty_tables scenario)) = [40] \<and>
   getInventory empty_tables ''p1'' = None \<and>
   ''m1'' \<notin> movementId ` set (stockMovements empty_tables) \<and>
   map quantity_m (stockMovements
       (snd (initializeInventory empty_tables ''p1'' ''SKU1'' 50 (Some ''WH-A'') 1000 ''m1''))) =
     [50] \<and>
   totalStock_of
       (snd (initializeInventory empty_tables ''p1'' ''SKU1'' 50 (Some ''WH-A'') 1000 ''m1''))
       ''p1'' = 50 \<and>
   getInventory after_reserve ''p1'' = Some (p1_item 40 10 50 2000) \<and>
   0 \<le> availableStock (p1_item 40 10 50 2000) + 25 \<and>
   ''m2'' \<notin> movementId ` set (stockMovements after_reserve) \<and>
   map quantity_m (stockMovements
       (snd (updateStock after_reserve ''p1'' 25 (Some ''RESTOCK'') None 3000 ''m2''))) =
     [50, 25] \<and>
   totalStock_of (snd (updateStock after_reserve ''p1'' 25 (Some ''RESTOCK'') None 3000 ''m2''))
       ''p1'' = 75 \<and>
   get_item reservationId ''r1'' (reservations after_reserve) = Some r1_active \<and>
   status r1_active = ACTIVE \<and>
   map quantity_m (stockMovements (snd (confirmReservation after_reserve ''r1'' 3000 ''m2''))) =
     [50, - 10] \<and>
   totalStock_of (snd (confirmReservation after_reserve ''r1'' 3000 ''m2'')) ''p1'' = 40 \<and>
   totalStock_of (snd (reserveStock after_reserve ''p1'' 5 ''orderB'' None ''r2'' 4000)) ''p1'' =
     50 \<and>
   totalStock_of (snd (cancelReservation after_reserve ''r1'' 4000)) ''p1'' = 50"
proof -
  have d: "distinct (concat (map op_mids scenario))"
    by (simp add: scenario_def)
  note t = audit_trail_reconstruction [OF d]
  have g: "getInventory (run empty_tables scenario) ''p1'' = Some (p1_item 40 0 40 5000)"
    by (simp add: eval_simps p1_item_def)
  have tot: "map totalStock (inventory (run empty_tables scenario)) = [40]"
    by (simp add: eval_simps)
  have m: "movement_sum (stockMovements (run empty_tables scenario)) ''p1'' = 40"
    using t [of "''p1''", THEN conjunct1] by (simp add: g p1_item_def)
  have i1: "getInventory empty_tables ''p1'' = None"
    by (simp add: eval_simps)
  have i2: "''m1'' \<notin> movementId ` set (stockMovements empty_tables)"
    by (simp add: eval_simps)
  have e0: "stockMovements empty_tables = []" "totalStock_of empty_tables ''p1'' = 0"
    by (simp_all add: eval_simps totalStock_of_def)
  note ti = t [THEN conjunct2, THEN conjunct2, THEN conjunct2, THEN conjunct2, THEN conjunct2,
      THEN conjunct1, THEN mp, OF conjI [OF i1 i2]]
  have i3: "map quantity_m (stockMovements
       (snd (initializeInventory empty_tables ''p1'' ''SKU1'' 50 (Some ''WH-A'') 1000 ''m1''))) =
     [50]"
    by (simp add: ti [THEN conjunct2, THEN conjunct1] e0)
  have i4: "totalStock_of
       (snd (initializeInventory empty_tables ''p1'' ''SKU1'' 50 (Some ''WH-A'') 1000 ''m1''))
       ''p1'' = 50"
    by (simp add: ti [THEN conjunct2, THEN conjunct2, THEN spec] e0)
  have u1: "getInventory after_reserve ''p1'' = Some (p1_item 40 10 50 2000)"
    by (simp add: eval_simps after_reserve_def p1_item_def)
  have u2: "0 \<le> availableStock (p1_item 40 10 50 2000) + 25"
    by (simp add: p1_item_def)
  have u3: "''m2'' \<notin> movementId ` set (stockMovements after_reserve)"
    by (simp add: eval_simps after_reserve_def)
  have a0: "map quantity_m (stockMovements after_reserve) = [50]"
    "totalStock_of after_reserve ''p1'' = 50"
    by (simp_all add: eval_simps after_reserve_def totalStock_of_def)
  note tu = t [THEN conjunct2, THEN conjunct2, THEN conjunct2, THEN conjunct2, THEN conjunct2,
      THEN conjunct2, THEN conjunct1, THEN mp, OF conjI [OF u1 conjI [OF u2 u3]]]
  have u4: "map quantity_m (stockMovements
       (snd (updateStock after_reserve ''p1'' 25 (Some ''RESTOCK'') None 3000 ''m2''))) =
     [50, 25]"
    by (simp add: tu [THEN conjunct2, THEN conjunct1] a0)
  have u5: "totalStock_of
       (snd (updateStock after_reserve ''p1'' 25 (Some ''RESTOCK'') None 3000 ''m2''))
       ''p1'' = 75"
    by (simp add: tu [THEN conjunct2, THEN conjunct2, THEN conjunct2, THEN spec] a0)
  have c1: "get_item reservationId ''r1'' (reservations after_reserve) = Some r1_active"
    by (simp add: eval_simps after_reserve_def r1_active_def)
  have c2: "status r1_active = ACTIVE"
    by (simp add: r1_active_def)
  have c3: "getInventory after_reserve (productId_r r1_active) = Some (p1_item 40 10 50 2000)"
    using u1 by (simp add: r1_active_def)
  have rq: "productId_r r1_active = ''p1''" "quantity r1_active = 10"
    by (simp_all add: r1_active_def)
  note tc = t [THEN conjunct2, THEN conjunct2, THEN conjunct2, THEN conjunct2, THEN conjunct2,
      THEN conjunct2, THEN conjunct2, THEN mp, OF conjI [OF c1 conjI [OF c2 conjI [OF c3 u3]]]]
  have c4: "map quantity_m
       (stockMovements (snd (confirmReservation after_reserve ''r1'' 3000 ''m2''))) = [50, - 10]"
    by (simp add: tc [THEN conjunct2, THEN conjunct1] a0 rq)
  have c5: "totalStock_of (snd (confirmReservation after_reserve ''r1'' 3000 ''m2'')) ''p1'' = 40"
    by (simp add: tc [THEN conjunct2, THEN conjunct2, THEN spec] a0 rq)
  have r5: "totalStock_of (snd (reserveStock after_reserve ''p1'' 5 ''orderB'' None ''r2'' 4000))
       ''p1'' = 50"
    by (simp add: t [THEN conjunct2, THEN conjunct2, THEN conjunct2, THEN conjunct1, THEN spec]
        a0)
  have x5: "totalStock_of (snd (cancelReservation after_reserve ''r1'' 4000)) ''p1'' = 50"
    by (simp add: t [THEN conjunct2, THEN conjunct2, THEN conjunct2, THEN conjunct2,
          THEN conjunct1, THEN spec] a0)
  show ?thesis
    by (intro conjI d m tot i1 i2 i3 i4 u1 u2 u3 u4 u5 c1 c2 c4 c5 r5 x5)
qed

subsection \<open>The reservation in the reply\<close>

text \<open>Claim C10. When \<^verbatim>\<open>confirmReservation\<close> or \<^verbatim>\<open>cancelReservation\<close> resolves an
  \<open>ACTIVE\<close> reservation, the reservation in the reply is the item as it was read, with
  status \<open>ACTIVE\<close>, while the stored item has status \<open>CONFIRMED\<close>, respectively
  \<open>CANCELLED\<close>.\<close>

theorem returned_reservation_is_stale:
  assumes r: "get_item reservationId rid (reservations s) = Some r" "status r = ACTIVE"
    and cur: "getInventory s (productId_r r) = Some cur"
  shows "fst (confirmReservation s rid now mid) =
           Inr \<lparr>success = True, message = None, reservation = Some r\<rparr> \<and>
         map_option status
           (get_item reservationId rid (reservations (snd (confirmReservation s rid now mid)))) =
           Some CONFIRMED \<and>
         fst (cancelReservation s rid now) =
           Inr \<lparr>success = True, message = None, reservation = Some r\<rparr> \<and>
         map_option status
           (get_item reservationId rid (reservations (snd (cancelReservation s rid now)))) =
           Some CANCELLED"
  using r cur
  by (simp add: confirmReservation_def cancelReservation_def logStockMovement_def Let_def
      get_item_update_item)

theorem returned_reservation_is_stale_witness:
  "get_item reservationId ''r1'' (reservations after_reserve) = Some r1_active \<and>
   status r1_active = ACTIVE \<and>
   getInventory after_reserve ''p1'' = Some (p1_item 40 10 50 2000) \<and>
   fst (confirmReservation after_reserve ''r1'' 3000 ''m2'') =
     Inr \<lparr>success = True, message = None, reservation = Some r1_active\<rparr> \<and>
   map_option status (get_item reservationId ''r1''
       (reservations (snd (confirmReservation after_reserve ''r1'' 3000 ''m2'')))) =
     Some CONFIRMED \<and>
   fst (cancelReservation after_reserve ''r1'' 3000) =
     Inr \<lparr>success = True, message = None, reservation = Some r1_active\<rparr> \<and>
   map_option status (get_item reservationId ''r1''
       (reservations (snd (cancelReservation after_reserve ''r1'' 3000)))) =
     Some CANCELLED"
proof -
  have h1: "get_item reservationId ''r1'' (reservations after_reserve) = Some r1_active"
    by (simp add: eval_simps after_reserve_def r1_active_def p1_item_def)
  have h2: "status r1_active = ACTIVE"
    by (simp add: r1_active_def)
  have h3: "getInventory after_reserve (productId_r r1_active) = Some (p1_item 40 10 50 2000)"
    by (simp add: eval_simps after_reserve_def r1_active_def p1_item_def)
  have h3': "getInventory after_reserve ''p1'' = Some (p1_item 40 10 50 2000)"
    using h3 by (simp add: r1_active_def)
  note t = returned_reservation_is_stale [OF h1 h2 h3, of 3000 "''m2''"]
  show ?thesis
    by (intro conjI h1 h2 h3' t [THEN conjunct1] t [THEN conjunct2, THEN conjunct1]
        t [THEN conjunct2, THEN conjunct2, THEN conjunct1]
        t [THEN conjunct2, THEN conjunct2, THEN conjunct2])
qed

end
